theory Spec2Isabelle
  imports Main "HOL-Library.Sublist" "HOL-Library.Char_ord" "HOL-Library.List_Lexorder"
    "HOL-Library.Product_Lexorder"
begin

section \<open>Python values used by main.py\<close>

text \<open>
  Strings are lists of characters, a character being a code point from 0 to 255 (ASCII and
  Latin-1). An exception that a statement of the source can raise is the left summand of
  the result.
\<close>

datatype py_error = IndexError | KeyError

definition newline :: char where
  "newline = CHR 0x0A"

definition tab :: char where
  "tab = CHR 0x09"

definition dquote :: char where
  "dquote = CHR 0x22"

text \<open>
  \<^verbatim>\<open>str.lower\<close>: the letters A to Z (65 to 90) and the Latin-1 capitals (192 to 222, but for
  the multiplication sign 215) move 32 code points up; every other character stays.
\<close>

definition lower_char :: "char \<Rightarrow> char" where
  "lower_char c =
     (let n = (of_char c :: nat) in
      if (65 \<le> n \<and> n \<le> 90) \<or> (192 \<le> n \<and> n \<le> 222 \<and> n \<noteq> 215)
      then char_of (n + 32) else c)"

definition py_lower :: "string \<Rightarrow> string" where
  "py_lower s = map lower_char s"

text \<open>\<^verbatim>\<open>s.split(sep)\<close> for a separator of one character: never an empty list.\<close>

fun py_split_on :: "char \<Rightarrow> string \<Rightarrow> string list" where
  "py_split_on sep [] = [[]]"
| "py_split_on sep (c # cs) =
     (if c = sep then [] # py_split_on sep cs
      else (case py_split_on sep cs of
              [] \<Rightarrow> [[c]]
            | seg # segs \<Rightarrow> (c # seg) # segs))"

text \<open>\<^verbatim>\<open>sep.join(xs)\<close>.\<close>

fun py_join :: "string \<Rightarrow> string list \<Rightarrow> string" where
  "py_join sep [] = []"
| "py_join sep [x] = x"
| "py_join sep (x # y # ys) = x @ sep @ py_join sep (y # ys)"

text \<open>\<^verbatim>\<open>str(n)\<close> for an integer: decimal digits, a minus sign when negative.\<close>

definition digit_char :: "nat \<Rightarrow> char" where
  "digit_char d = char_of (48 + d)"

function str_nat :: "nat \<Rightarrow> string" where
  "str_nat n = (if n < 10 then [digit_char n] else str_nat (n div 10) @ [digit_char (n mod 10)])"
  by pat_completeness auto
termination
  by (relation "measure (\<lambda>n. n)") auto

declare str_nat.simps [simp del]

definition py_str :: "int \<Rightarrow> string" where
  "py_str i = (if i < 0 then CHR ''-'' # str_nat (nat (- i)) else str_nat (nat i))"

text \<open>
  White space of \<^verbatim>\<open>str.split()\<close>: the code points 9 to 13, 28 to 31, 32, and in Latin-1 the
  next-line control 133 and the no-break space 160.
\<close>

definition isspace :: "char \<Rightarrow> bool" where
  "isspace c \<longleftrightarrow>
     c \<in> set [CHR 0x09, CHR 0x0A, CHR 0x0B, CHR 0x0C, CHR 0x0D,
              CHR 0x1C, CHR 0x1D, CHR 0x1E, CHR 0x1F, CHR 0x20, CHR 0x85, CHR 0xA0]"

text \<open>
  \<^verbatim>\<open>s.split()\<close>: the maximal runs of characters that are not white space. The first argument
  is the word read so far.
\<close>

fun split_from :: "string \<Rightarrow> string \<Rightarrow> string list" where
  "split_from word [] = (if word = [] then [] else [word])"
| "split_from word (c # cs) =
     (if isspace c then (if word = [] then split_from [] cs else word # split_from [] cs)
      else split_from (word @ [c]) cs)"

definition py_split :: "string \<Rightarrow> string list" where
  "py_split s = split_from [] s"

text \<open>\<^verbatim>\<open>s.replace(a, b)\<close> for single characters, and \<^verbatim>\<open>s.replace(a, '')\<close>.\<close>

definition replace_char :: "char \<Rightarrow> char \<Rightarrow> string \<Rightarrow> string" where
  "replace_char a b s = map (\<lambda>c. if c = a then b else c) s"

definition remove_char :: "char \<Rightarrow> string \<Rightarrow> string" where
  "remove_char a s = filter (\<lambda>c. c \<noteq> a) s"

definition startswith :: "string \<Rightarrow> string \<Rightarrow> bool" where
  "startswith s p \<longleftrightarrow> prefix p s"

definition endswith :: "string \<Rightarrow> string \<Rightarrow> bool" where
  "endswith s p \<longleftrightarrow> suffix p s"

text \<open>\<^verbatim>\<open>p in s\<close> for strings: \<open>p\<close> occurs in \<open>s\<close> as a contiguous piece.\<close>

fun contains :: "string \<Rightarrow> string \<Rightarrow> bool" where
  "contains p [] = (p = [])"
| "contains p (c # cs) = (prefix p (c # cs) \<or> contains p cs)"

text \<open>
  \<^verbatim>\<open>xs[i]\<close>: a negative index counts from the end, an index out of range raises
  \<^verbatim>\<open>IndexError\<close>.
\<close>

definition subscript :: "'a list \<Rightarrow> int \<Rightarrow> py_error + 'a" where
  "subscript xs i =
     (if 0 \<le> i \<and> i < int (length xs) then Inr (xs ! nat i)
      else if i < 0 \<and> - i \<le> int (length xs) then Inr (xs ! nat (int (length xs) + i))
      else Inl IndexError)"

text \<open>The characters of a string, as Python iterates over it.\<close>

definition chars :: "string \<Rightarrow> string list" where
  "chars s = map (\<lambda>c. [c]) s"

section \<open>The key-combination translator\<close>

text \<open>The dictionary \<^verbatim>\<open>keys_mapping\<close> (main.py, lines 103 to 123).\<close>

definition keys_mapping :: "string \<rightharpoonup> string" where
  "keys_mapping = map_of
     [(''meta'', ''super''),
      (''pgdown'', ''Page_Down''),
      (''pgup'', ''Page_Up''),
      (''right'', ''Right''),
      (''left'', ''Left''),
      (''up'', ''Up''),
      (''down'', ''Down''),
      (''f1'', ''F1''),
      (''f2'', ''F2''),
      (''f3'', ''F3''),
      (''f4'', ''F4''),
      (''f5'', ''F5''),
      (''f6'', ''F6''),
      (''f7'', ''F7''),
      (''f8'', ''F8''),
      (''f9'', ''F9''),
      (''f10'', ''F10''),
      (''f11'', ''F11''),
      (''f12'', ''F12'')]"

text \<open>
  \<^verbatim>\<open>find_key_combo\<close> (lines 243 to 256). The loop appends to \<^verbatim>\<open>xdotool_key_combo\<close>;
  the subscript \<^verbatim>\<open>keys_mapping[lowered_key]\<close> raises \<^verbatim>\<open>KeyError\<close> on a missing key.
\<close>

fun find_key_combo_loop :: "string list \<Rightarrow> string list \<Rightarrow> py_error + string list" where
  "find_key_combo_loop [] xdotool_key_combo = Inr xdotool_key_combo"
| "find_key_combo_loop (qt_key # rest) xdotool_key_combo =
     (let lowered_key = py_lower qt_key in
      if keys_mapping lowered_key \<noteq> None then
        (case keys_mapping lowered_key of
           None \<Rightarrow> Inl KeyError
         | Some v \<Rightarrow> find_key_combo_loop rest (xdotool_key_combo @ [v]))
      else find_key_combo_loop rest (xdotool_key_combo @ [lowered_key]))"

definition find_key_combo :: "string \<Rightarrow> py_error + string" where
  "find_key_combo qt_key_combo =
     (case find_key_combo_loop (py_split_on (CHR ''+'') qt_key_combo) [] of
        Inl e \<Rightarrow> Inl e
      | Inr xdotool_key_combo \<Rightarrow> Inr (py_join ''+'' xdotool_key_combo))"

subsection \<open>The translator as the specification words it\<close>

text \<open>
  The table of the specification: seven named keys, and the function keys \<open>f1\<close> to \<open>f12\<close>
  mapped to \<open>F1\<close> to \<open>F12\<close>.
\<close>

definition spec_key_table :: "(string \<times> string) list" where
  "spec_key_table =
     [(''meta'', ''super''), (''pgdown'', ''Page_Down''), (''pgup'', ''Page_Up''),
      (''right'', ''Right''), (''left'', ''Left''), (''up'', ''Up''), (''down'', ''Down'')]
     @ map (\<lambda>n. (''f'' @ str_nat n, ''F'' @ str_nat n)) [1..<13]"

definition spec_translate_segment :: "string \<Rightarrow> string" where
  "spec_translate_segment seg =
     (let lowered = py_lower seg in
      case map_of spec_key_table lowered of Some mapped \<Rightarrow> mapped | None \<Rightarrow> lowered)"

definition spec_translate :: "string \<Rightarrow> string" where
  "spec_translate combo =
     py_join ''+'' (map spec_translate_segment (py_split_on (CHR ''+'') combo))"

section \<open>The configuration file\<close>

text \<open>
  The state is the text of the file at \<^verbatim>\<open>CONFIG_LOCATION\<close> as Python's text layer reads
  it (every line end is the newline character), \<open>None\<close> when the file does not exist.
  \<^verbatim>\<open>readlines\<close> cuts after every newline and keeps it. Failures of the file system other
  than the missing file are not part of the state.
\<close>

type_synonym config_file = "string option"

fun readlines :: "string \<Rightarrow> string list" where
  "readlines [] = []"
| "readlines (c # cs) =
     (if c = newline then [c] # readlines cs
      else (case readlines cs of
              [] \<Rightarrow> [[c]]
            | l # ls \<Rightarrow> (c # l) # ls))"

text \<open>\<^verbatim>\<open>read_config\<close> (lines 169 to 180): no file gives \<^verbatim>\<open>''\<close>, which has no lines.\<close>

definition read_config :: "config_file \<Rightarrow> string list" where
  "read_config fs = (case fs of None \<Rightarrow> [] | Some text \<Rightarrow> readlines text)"

text \<open>\<^verbatim>\<open>write_config\<close> (lines 183 to 189): the file becomes the joined argument.\<close>

definition write_config :: "string list \<Rightarrow> config_file" where
  "write_config new_conf = Some (concat new_conf)"

subsection \<open>Repairing the file\<close>

text \<open>
  The body of the loop of \<^verbatim>\<open>fix_config\<close> (lines 215 to 231) for one line: whether the line
  is appended to \<^verbatim>\<open>fixed_conf\<close>, or the exception a subscript raises.
\<close>

definition fix_config_keep :: "string \<Rightarrow> py_error + bool" where
  "fix_config_keep line =
     (if startswith line ''#'' \<or> line = [newline] then Inr True
      else
        let splitted = py_split (replace_char tab (CHR '' '') line) in
        case subscript splitted 0 of
          Inl e \<Rightarrow> Inl e
        | Inr s0 \<Rightarrow>
            if s0 \<in> set [''gesture'', ''device'', ''swipe_threshold''] then
              if s0 = ''gesture'' then
                (case subscript splitted 4 of
                   Inl e \<Rightarrow> Inl e
                 | Inr s4 \<Rightarrow>
                     if s4 = ''xdotool'' then
                       (case subscript splitted 5 of
                          Inl e \<Rightarrow> Inl e
                        | Inr s5 \<Rightarrow> Inr (s5 = ''key'' \<and> length splitted = 7))
                     else if contains ''qdbus'' s4 then
                       (case subscript splitted (- 1) of
                          Inl e \<Rightarrow> Inl e
                        | Inr s_last \<Rightarrow> Inr (endswith s_last [dquote]))
                     else Inr True)
              else Inr (length splitted = 2)
            else Inr False)"

fun fix_config_loop :: "string list \<Rightarrow> string list \<Rightarrow> py_error + string list" where
  "fix_config_loop [] fixed_conf = Inr fixed_conf"
| "fix_config_loop (line # conf) fixed_conf =
     (case fix_config_keep line of
        Inl e \<Rightarrow> Inl e
      | Inr keep \<Rightarrow> fix_config_loop conf (if keep then fixed_conf @ [line] else fixed_conf))"

text \<open>
  \<^verbatim>\<open>fix_config\<close> (lines 203 to 232). An exception leaves the loop before \<^verbatim>\<open>write_config\<close>
  is reached; otherwise the joined string is handed to \<^verbatim>\<open>write_config\<close>, which joins its
  characters.
\<close>

definition fix_config :: "config_file \<Rightarrow> py_error + config_file" where
  "fix_config fs =
     (case fix_config_loop (read_config fs) [] of
        Inl e \<Rightarrow> Inl e
      | Inr fixed_conf \<Rightarrow> Inr (write_config (chars (concat fixed_conf))))"

subsection \<open>The repair rules as the specification words them\<close>

definition spec_gesture_kept :: "string list \<Rightarrow> bool" where
  "spec_gesture_kept toks \<longleftrightarrow>
     5 \<le> length toks \<and>
     (if toks ! 4 = ''xdotool'' then length toks = 7 \<and> toks ! 5 = ''key''
      else if contains ''qdbus'' (toks ! 4) then endswith (last toks) [dquote]
      else True)"

definition spec_directive_kept :: "string list \<Rightarrow> bool" where
  "spec_directive_kept toks \<longleftrightarrow> length toks = 2"

subsection \<open>Normalising white space\<close>

text \<open>
  \<^verbatim>\<open>re.sub('(c)+', ' ', s)\<close> for a character \<open>c\<close>: the matches are the maximal runs of \<open>c\<close>, from
  left to right, and each becomes one space.
\<close>

function resub_runs :: "char \<Rightarrow> string \<Rightarrow> string" where
  "resub_runs c [] = []"
| "resub_runs c (x # xs) =
     (if x = c then CHR '' '' # resub_runs c (dropWhile (\<lambda>y. y = c) xs)
      else x # resub_runs c xs)"
  by pat_completeness auto
termination
  by (relation "measure (\<lambda>(c, s). length s)") (auto simp: length_dropWhile_le less_Suc_eq_le)

text \<open>\<^verbatim>\<open>resub_config\<close> (lines 234 to 240).\<close>

definition resub_config :: "config_file \<Rightarrow> config_file" where
  "resub_config fs =
     (let conf = concat (read_config fs);
          conf = resub_runs tab conf;
          conf = replace_char tab (CHR '' '') conf;
          conf = resub_runs (CHR '' '') conf
      in write_config (chars conf))"

subsection \<open>The gesture tables\<close>

text \<open>The dictionaries \<^verbatim>\<open>actions_mapping\<close> (lines 73 to 86) and \<^verbatim>\<open>reversed_mapping\<close> (88 to 101).\<close>

definition actions_mapping :: "string \<rightharpoonup> string" where
  "actions_mapping = map_of
     [(''Swipe Up'', ''gesture swipe up''),
      (''Swipe Down'', ''gesture swipe down''),
      (''Swipe Left'', ''gesture swipe left''),
      (''Swipe LeftUp'', ''gesture swipe left_up''),
      (''Swipe LeftDown'', ''gesture swipe  left_down''),
      (''Swipe Right'', ''gesture swipe right''),
      (''Swipe RightUp'', ''gesture swipe right_up''),
      (''Swipe RightDown'', ''gesture swipe right_down''),
      (''Pinch In'', ''gesture pinch in''),
      (''Pinch Out'', ''gesture pinch out''),
      (''Pinch Clockwise'', ''gesture pinch clockwise''),
      (''Pinch Anticlockwise'', ''gesture pinch anticlockwise'')]"

definition reversed_mapping :: "string \<rightharpoonup> string" where
  "reversed_mapping = map_of
     [(''gesture swipe up'', ''Swipe Up''),
      (''gesture swipe down'', ''Swipe Down''),
      (''gesture swipe left'', ''Swipe Left''),
      (''gesture swipe left_up'', ''Swipe LeftUp''),
      (''gesture swipe left_down'', ''Swipe LeftDown''),
      (''gesture swipe right'', ''Swipe Right''),
      (''gesture swipe right_up'', ''Swipe RightUp''),
      (''gesture swipe right_down'', ''Swipe RightDown''),
      (''gesture pinch in'', ''Pinch In''),
      (''gesture pinch out'', ''Pinch Out''),
      (''gesture pinch clockwise'', ''Pinch Clockwise''),
      (''gesture pinch anticlockwise'', ''Pinch Anticlockwise'')]"

text \<open>\<^verbatim>\<open>d[k]\<close>: a missing key raises \<^verbatim>\<open>KeyError\<close>.\<close>

definition dict_get :: "('k \<rightharpoonup> 'v) \<Rightarrow> 'k \<Rightarrow> py_error + 'v" where
  "dict_get d k = (case d k of None \<Rightarrow> Inl KeyError | Some v \<Rightarrow> Inr v)"

subsection \<open>Reading the file for display\<close>

text \<open>
  \<^verbatim>\<open>re.findall('"(.*?)"', s)\<close>. From the character after an opening quote, \<open>quoted_body\<close>
  gives the captured text and the text after the closing quote; the dot matches no
  newline, so a newline or the end of the text before a closing quote is no match.
\<close>

fun quoted_body :: "string \<Rightarrow> (string \<times> string) option" where
  "quoted_body [] = None"
| "quoted_body (c # cs) =
     (if c = dquote then Some ([], cs)
      else if c = newline then None
      else (case quoted_body cs of
              None \<Rightarrow> None
            | Some (body, after) \<Rightarrow> Some (c # body, after)))"

lemma quoted_body_shorter: "quoted_body s = Some (body, after) \<Longrightarrow> length after < length s"
  by (induction s arbitrary: body) (auto split: if_splits option.splits)

function findall_quoted :: "string \<Rightarrow> string list" where
  "findall_quoted [] = []"
| "findall_quoted (c # cs) =
     (if c = dquote then
        (case quoted_body cs of
           Some (body, after) \<Rightarrow> body # findall_quoted after
         | None \<Rightarrow> findall_quoted cs)
      else findall_quoted cs)"
  by pat_completeness auto
termination
  by (relation "measure length") (auto dest: quoted_body_shorter)

text \<open>
  The five lists \<^verbatim>\<open>prepare_config_for_displaying\<close> fills and \<^verbatim>\<open>sort_config\<close> reorders. The
  finger counts are the fourth tokens of the lines: strings.
\<close>

record display =
  gestures :: "string list"
  fingers :: "string list"
  shortcuts :: "string list"
  buttons :: "string list"
  actions :: "string list"

text \<open>
  The body of the loop of \<^verbatim>\<open>prepare_config_for_displaying\<close> (lines 505 to 521) for a line
  that starts with \<^verbatim>\<open>gesture\<close>: the gesture label, the finger count, the action kind, the
  shortcut and the button name appended to the five lists.
\<close>

definition prepare_action :: "string \<Rightarrow> string list \<Rightarrow> py_error + string \<times> string" where
  "prepare_action line splitted =
     (case subscript splitted 4 of
        Inl e \<Rightarrow> Inl e
      | Inr s4 \<Rightarrow>
          (case (if s4 = ''xdotool''
                 then (case subscript splitted 5 of
                         Inl e \<Rightarrow> Inl e
                       | Inr s5 \<Rightarrow> Inr (s5 = ''key''))
                 else Inr False) of
             Inl e \<Rightarrow> Inl e
           | Inr xdotool_key \<Rightarrow>
               if xdotool_key then
                 (case subscript splitted 6 of
                    Inl e \<Rightarrow> Inl e
                  | Inr s6 \<Rightarrow> Inr (''Keyboard shortcut'', s6))
               else if contains ''qdbus'' s4 then
                 (case subscript (findall_quoted line) 0 of
                    Inl e \<Rightarrow> Inl e
                  | Inr plasma_action \<Rightarrow>
                      if plasma_action \<noteq> [] then Inr (''Plasma action'', plasma_action)
                      else (case subscript splitted (- 1) of
                              Inl e \<Rightarrow> Inl e
                            | Inr s_last \<Rightarrow> Inr (''Plasma action'', remove_char dquote s_last)))
               else Inr (''Command'', py_join '' '' (drop 4 splitted))))"

definition prepare_line ::
  "string \<Rightarrow> py_error + string \<times> string \<times> string \<times> string \<times> string" where
  "prepare_line line =
     (let splitted = py_split line in
      case subscript splitted 0 of
        Inl e \<Rightarrow> Inl e
      | Inr s0 \<Rightarrow>
      case subscript splitted 1 of
        Inl e \<Rightarrow> Inl e
      | Inr s1 \<Rightarrow>
      case subscript splitted 2 of
        Inl e \<Rightarrow> Inl e
      | Inr s2 \<Rightarrow>
      case dict_get reversed_mapping (s0 @ '' '' @ s1 @ '' '' @ s2) of
        Inl e \<Rightarrow> Inl e
      | Inr gesture \<Rightarrow>
      case subscript splitted 3 of
        Inl e \<Rightarrow> Inl e
      | Inr s3 \<Rightarrow>
      case prepare_action line splitted of
        Inl e \<Rightarrow> Inl e
      | Inr (action, shortcut) \<Rightarrow>
          Inr (gesture, s3, action, shortcut, s0 @ '' '' @ s1 @ '' '' @ s2 @ '' '' @ s3))"

fun prepare_loop :: "string list \<Rightarrow> display \<Rightarrow> py_error + display" where
  "prepare_loop [] d = Inr d"
| "prepare_loop (line # conf) d =
     (if startswith line ''gesture'' then
        (case prepare_line line of
           Inl e \<Rightarrow> Inl e
         | Inr (gesture, finger, action, shortcut, button) \<Rightarrow>
             prepare_loop conf
               \<lparr>gestures = gestures d @ [gesture], fingers = fingers d @ [finger],
                shortcuts = shortcuts d @ [shortcut], buttons = buttons d @ [button],
                actions = actions d @ [action]\<rparr>)
      else prepare_loop conf d)"

definition prepare_config_for_displaying :: "config_file \<Rightarrow> py_error + display" where
  "prepare_config_for_displaying fs =
     prepare_loop (read_config fs)
       \<lparr>gestures = [], fingers = [], shortcuts = [], buttons = [], actions = []\<rparr>"

text \<open>
  \<^verbatim>\<open>sort_config\<close> (lines 435 to 471). The loop reads the other four lists at every index of
  \<^verbatim>\<open>gestures\<close>; \<^verbatim>\<open>sorted\<close> compares the pairs of a label and a tuple of four strings
  lexicographically, strings by code points.
\<close>

definition sort_config :: "display \<Rightarrow> py_error + display" where
  "sort_config d =
     (if length (fingers d) < length (gestures d) \<or> length (shortcuts d) < length (gestures d)
         \<or> length (buttons d) < length (gestures d) \<or> length (actions d) < length (gestures d)
      then Inl IndexError
      else
        let for_sorting =
              zip (gestures d) (zip (fingers d) (zip (shortcuts d) (zip (buttons d) (actions d))));
            sorted_conf = sort for_sorting
        in Inr \<lparr>gestures = map fst sorted_conf,
                fingers = map (\<lambda>line. fst (snd line)) sorted_conf,
                shortcuts = map (\<lambda>line. fst (snd (snd line))) sorted_conf,
                buttons = map (\<lambda>line. fst (snd (snd (snd line)))) sorted_conf,
                actions = map (\<lambda>line. snd (snd (snd (snd line)))) sorted_conf\<rparr>)"

subsection \<open>Deleting and saving a binding\<close>

text \<open>
  \<^verbatim>\<open>delete_entry\<close> (lines 594 to 599), once the user has answered Yes; \<open>name\<close> is the
  accessible name of the button.
\<close>

fun delete_entry_loop :: "string \<Rightarrow> string list \<Rightarrow> string list \<Rightarrow> string list" where
  "delete_entry_loop name [] new_conf = new_conf"
| "delete_entry_loop name (line # conf) new_conf =
     delete_entry_loop name conf (if \<not> startswith line name then new_conf @ [line] else new_conf)"

definition delete_entry :: "string \<Rightarrow> config_file \<Rightarrow> config_file" where
  "delete_entry name fs = write_config (delete_entry_loop name (read_config fs) [])"

text \<open>
  \<^verbatim>\<open>save_changes\<close> (lines 723 to 732) with the fields \<^verbatim>\<open>action\<close>, \<^verbatim>\<open>fingers\<close> and \<^verbatim>\<open>shortcut\<close>
  of the edit window. \<open>save_changes_conf\<close> is the list handed to \<^verbatim>\<open>write_config\<close>; when one
  of the three fields is empty or zero the file is left as it is.
\<close>

fun save_changes_loop :: "string \<Rightarrow> string list \<Rightarrow> string list \<Rightarrow> string list" where
  "save_changes_loop key [] new_conf = new_conf"
| "save_changes_loop key (line # conf) new_conf =
     save_changes_loop key conf (if \<not> startswith line key then new_conf @ [line] else new_conf)"

definition save_changes_conf :: "string \<Rightarrow> int \<Rightarrow> string \<Rightarrow> string list \<Rightarrow> string list" where
  "save_changes_conf action n shortcut conf =
     save_changes_loop (action @ '' '' @ py_str n) conf []
       @ [action @ '' '' @ py_str n @ '' '' @ shortcut @ [newline]]"

definition save_changes :: "string \<Rightarrow> int \<Rightarrow> string \<Rightarrow> config_file \<Rightarrow> config_file" where
  "save_changes action n shortcut fs =
     (if action \<noteq> [] \<and> n \<noteq> 0 \<and> shortcut \<noteq> []
      then write_config (save_changes_conf action n shortcut (read_config fs))
      else fs)"

text \<open>
  A text of one line holds no newline and no carriage return (which the text layer would
  read back as a newline). A file is newline-terminated when it is missing, empty, or ends
  with a newline.
\<close>

definition one_line :: "string \<Rightarrow> bool" where
  "one_line s \<longleftrightarrow> newline \<notin> set s \<and> CHR 0x0D \<notin> set s"

definition newline_terminated :: "config_file \<Rightarrow> bool" where
  "newline_terminated fs \<longleftrightarrow>
     (case fs of None \<Rightarrow> True | Some text \<Rightarrow> text = [] \<or> last text = newline)"

section \<open>Notions used in the proofs\<close>

text \<open>
  A sequence of lines as \<^verbatim>\<open>readlines\<close> returns it: no line is empty, a newline only ends
  a line, and every line but the last ends with one.
\<close>

fun wf_lines :: "string list \<Rightarrow> bool" where
  "wf_lines [] = True"
| "wf_lines [l] = (l \<noteq> [] \<and> newline \<notin> set (butlast l))"
| "wf_lines (l # l' # ls) =
     (l \<noteq> [] \<and> newline \<notin> set (butlast l) \<and> last l = newline \<and> wf_lines (l' # ls))"

text \<open>The three substitutions of \<^verbatim>\<open>resub_config\<close>, one after the other.\<close>

definition normalise :: "string \<Rightarrow> string" where
  "normalise s = resub_runs (CHR '' '') (replace_char tab (CHR '' '') (resub_runs tab s))"

section \<open>Properties of the translator\<close>

lemma spec_key_table_eval:
  "spec_key_table =
     [(''meta'', ''super''), (''pgdown'', ''Page_Down''), (''pgup'', ''Page_Up''),
      (''right'', ''Right''), (''left'', ''Left''), (''up'', ''Up''), (''down'', ''Down''),
      (''f1'', ''F1''), (''f2'', ''F2''), (''f3'', ''F3''), (''f4'', ''F4''),
      (''f5'', ''F5''), (''f6'', ''F6''), (''f7'', ''F7''), (''f8'', ''F8''),
      (''f9'', ''F9''), (''f10'', ''F10''), (''f11'', ''F11''), (''f12'', ''F12'')]"
  by code_simp

lemma spec_key_table_keys_mapping: "map_of spec_key_table = keys_mapping"
  unfolding spec_key_table_eval keys_mapping_def ..

lemma find_key_combo_loop_map:
  "find_key_combo_loop keys acc = Inr (acc @ map spec_translate_segment keys)"
proof (induction keys arbitrary: acc)
  case Nil
  show ?case by simp
next
  case (Cons k keys)
  show ?case
  proof (cases "keys_mapping (py_lower k)")
    case None
    then show ?thesis
      by (simp add: Cons.IH spec_translate_segment_def spec_key_table_keys_mapping)
  next
    case (Some v)
    then show ?thesis
      by (simp add: Cons.IH spec_translate_segment_def spec_key_table_keys_mapping)
  qed
qed

lemma py_lower_latin1: "py_lower (''Ctrl+'' @ [CHR 0xC9, CHR 0xD7]) = ''ctrl+'' @ [CHR 0xE9, CHR 0xD7]"
  by code_simp

lemma find_key_combo_latin1:
  "find_key_combo (''Ctrl+'' @ [CHR 0xC9]) = Inr (''ctrl+'' @ [CHR 0xE9])"
  by code_simp

text \<open>
  C3. On every combo string the translator returns (it raises nothing) the \<open>+\<close>-joined
  segments, each lower-cased and replaced through the fixed table when the lowered segment
  is one of its keys; \<open>Ctrl+Meta+PgDown\<close> becomes \<open>ctrl+super+Page_Down\<close> and \<open>Alt+Q\<close>
  becomes \<open>alt+q\<close>.
\<close>

theorem find_key_combo_spec:
  "find_key_combo combo = Inr (spec_translate combo)
   \<and> find_key_combo ''Ctrl+Meta+PgDown'' = Inr ''ctrl+super+Page_Down''
   \<and> find_key_combo ''Alt+Q'' = Inr ''alt+q''"
proof -
  have general: "find_key_combo c = Inr (spec_translate c)" for c
    by (simp add: find_key_combo_def spec_translate_def find_key_combo_loop_map)
  have "spec_translate ''Ctrl+Meta+PgDown'' = ''ctrl+super+Page_Down''"
    by code_simp
  moreover have "spec_translate ''Alt+Q'' = ''alt+q''"
    by code_simp
  ultimately show ?thesis
    by (simp add: general)
qed

section \<open>Properties of the file model\<close>

lemma concat_chars: "concat (chars s) = s"
  by (induction s) (simp_all add: chars_def)

lemma concat_readlines: "concat (readlines s) = s"
  by (induction s) (auto split: list.splits)

lemma readlines_eq_Nil: "readlines s = [] \<longleftrightarrow> s = []"
  by (cases s) (auto split: list.splits)

lemma readlines_terminated:
  "newline \<notin> set b \<Longrightarrow> readlines (b @ newline # s) = (b @ [newline]) # readlines s"
  by (induction b) auto

lemma readlines_unterminated:
  "b \<noteq> [] \<Longrightarrow> newline \<notin> set b \<Longrightarrow> readlines b = [b]"
proof (induction b)
  case Nil
  then show ?case by simp
next
  case (Cons c b)
  then show ?case by (cases b) auto
qed

lemma readlines_single:
  assumes "l \<noteq> []" "newline \<notin> set (butlast l)"
  shows "readlines l = [l]"
proof (cases "last l = newline")
  case True
  with assms have "l = butlast l @ newline # []" by (metis append_butlast_last_id)
  then have "readlines l = (butlast l @ [newline]) # readlines []"
    using readlines_terminated [OF assms(2), of "[]"] by simp
  with \<open>l = butlast l @ newline # []\<close> show ?thesis by simp
next
  case False
  with assms have "newline \<notin> set l"
    by (metis append_butlast_last_id set_ConsD rotate1.simps(2) set_rotate1)
  with assms show ?thesis by (simp add: readlines_unterminated)
qed

lemma readlines_concat: "wf_lines ls \<Longrightarrow> readlines (concat ls) = ls"
proof (induction ls rule: wf_lines.induct)
  case 1
  show ?case by simp
next
  case (2 l)
  then show ?case by (simp add: readlines_single)
next
  case (3 l l' ls)
  then have nb: "newline \<notin> set (butlast l)" by simp
  from 3 have "l \<noteq> []" "last l = newline" by simp_all
  then have l: "l = butlast l @ [newline]"
    by (metis append_butlast_last_id)
  have "readlines (concat (l # l' # ls)) = readlines (butlast l @ newline # concat (l' # ls))"
    by (subst l) simp
  also have "\<dots> = (butlast l @ [newline]) # readlines (concat (l' # ls))"
    by (rule readlines_terminated [OF nb])
  finally show ?case using 3 l by simp
qed

lemma wf_lines_readlines: "wf_lines (readlines s)"
proof (induction s)
  case Nil
  show ?case by simp
next
  case (Cons c s)
  show ?case
  proof (cases "c = newline")
    case True
    with Cons show ?thesis by (cases "readlines s") auto
  next
    case False
    show ?thesis
    proof (cases "readlines s")
      case Nil
      with False show ?thesis by simp
    next
      case (Cons l ls)
      with Cons.IH False show ?thesis
        by (cases ls) (auto split: if_splits)
    qed
  qed
qed

lemma wf_lines_Cons: "wf_lines (l # ls) \<Longrightarrow> wf_lines ls"
  by (cases ls) auto

lemma wf_lines_head: "wf_lines (l # ls) \<Longrightarrow> wf_lines [l]"
  by (cases ls) auto

lemma wf_lines_Cons_terminated:
  "wf_lines [l] \<Longrightarrow> last l = newline \<Longrightarrow> wf_lines ls \<Longrightarrow> wf_lines (l # ls)"
  by (cases ls) auto

lemma wf_lines_head_terminated: "wf_lines (l # ls) \<Longrightarrow> ls \<noteq> [] \<Longrightarrow> last l = newline"
  by (cases ls) auto

lemma wf_lines_filter: "wf_lines ls \<Longrightarrow> wf_lines (filter P ls)"
proof (induction ls)
  case Nil
  show ?case by simp
next
  case (Cons l ls)
  then have IH: "wf_lines (filter P ls)" by (simp add: wf_lines_Cons)
  show ?case
  proof (cases "P l")
    case False
    with IH show ?thesis by simp
  next
    case True
    show ?thesis
    proof (cases "filter P ls = []")
      case True
      with \<open>P l\<close> wf_lines_head [OF Cons.prems] show ?thesis by simp
    next
      case False
      then have "ls \<noteq> []" by auto
      with Cons.prems have "last l = newline" by (rule wf_lines_head_terminated)
      with \<open>P l\<close> IH wf_lines_head [OF Cons.prems] show ?thesis
        by (simp add: wf_lines_Cons_terminated)
    qed
  qed
qed

lemma read_write_config: "wf_lines ls \<Longrightarrow> read_config (write_config ls) = ls"
  by (simp add: read_config_def write_config_def readlines_concat)

lemma read_write_chars: "wf_lines ls \<Longrightarrow> read_config (write_config (chars (concat ls))) = ls"
  by (simp add: read_config_def write_config_def readlines_concat concat_chars)

lemma wf_lines_read_config: "wf_lines (read_config fs)"
  by (cases fs) (simp_all add: read_config_def wf_lines_readlines)

section \<open>Properties of the tokens\<close>

lemma isspace_tab [simp]: "isspace tab"
  by (simp add: isspace_def tab_def)

lemma isspace_space [simp]: "isspace (CHR '' '')"
  by (simp add: isspace_def)

lemma isspace_newline [simp]: "isspace newline"
  by (simp add: isspace_def newline_def)

lemma split_from_replace_tab:
  "split_from word (replace_char tab (CHR '' '') s) = split_from word s"
  by (induction s arbitrary: word) (simp_all add: replace_char_def)

lemma py_split_replace_tab: "py_split (replace_char tab (CHR '' '') s) = py_split s"
  by (simp add: py_split_def split_from_replace_tab)

lemma split_from_word:
  "word \<noteq> [] \<Longrightarrow> \<exists>more toks. split_from word s = (word @ more) # toks"
proof (induction s arbitrary: word)
  case Nil
  then show ?case by simp
next
  case (Cons c s)
  show ?case
  proof (cases "isspace c")
    case True
    with Cons.prems show ?thesis by simp
  next
    case False
    from Cons.IH [of "word @ [c]"] obtain more toks
      where "split_from (word @ [c]) s = ((word @ [c]) @ more) # toks" by auto
    with False show ?thesis by simp
  qed
qed

lemma py_split_first_char:
  assumes "py_split (c # s) = tok # toks" "\<not> isspace c"
  shows "\<exists>more. tok = c # more"
proof -
  from split_from_word [of "[c]" s] obtain more toks'
    where "split_from [c] s = ([c] @ more) # toks'" by auto
  with assms show ?thesis by (auto simp: py_split_def)
qed

lemma py_split_hash:
  assumes "py_split line = tok # toks" "startswith line ''#''"
  shows "\<exists>more. tok = CHR ''#'' # more"
proof -
  from assms(2) obtain s where "line = CHR ''#'' # s"
    by (auto simp: startswith_def prefix_def)
  with assms(1) show ?thesis
    using py_split_first_char [of "CHR ''#''" s tok toks] by (simp add: isspace_def)
qed

lemma py_split_newline: "py_split [newline] = []"
  by (simp add: py_split_def)

lemma subscript_nat:
  "subscript xs (int n) = (if n < length xs then Inr (xs ! n) else Inl IndexError)"
  by (simp add: subscript_def)

lemma subscript_0: "subscript xs 0 = (case xs of [] \<Rightarrow> Inl IndexError | x # _ \<Rightarrow> Inr x)"
  by (cases xs) (simp_all add: subscript_def)

lemma subscript_4: "subscript xs 4 = (if 4 < length xs then Inr (xs ! 4) else Inl IndexError)"
  using subscript_nat [of xs 4] by simp

lemma subscript_5: "subscript xs 5 = (if 5 < length xs then Inr (xs ! 5) else Inl IndexError)"
  using subscript_nat [of xs 5] by simp

lemma subscript_last:
  "subscript xs (- 1) = (if xs = [] then Inl IndexError else Inr (last xs))"
proof (cases "xs = []")
  case True
  then show ?thesis by (simp add: subscript_def)
next
  case False
  then have "0 < length xs" by simp
  then have "nat (int (length xs) + - 1) = length xs - 1" by simp
  with False show ?thesis
    by (simp add: subscript_def last_conv_nth Suc_le_eq)
qed

lemma split_from_space:
  "isspace c \<Longrightarrow> split_from word (a @ c # s) = split_from word a @ split_from [] s"
  by (induction a arbitrary: word) simp_all

lemma split_from_no_space:
  "\<forall>c\<in>set w. \<not> isspace c \<Longrightarrow>
     split_from word w = (if word @ w = [] then [] else [word @ w])"
  by (induction w arbitrary: word) simp_all

lemma py_split_space:
  "isspace c \<Longrightarrow> py_split (a @ c # s) = py_split a @ py_split s"
  by (simp add: py_split_def split_from_space)

lemma py_split_word:
  "w \<noteq> [] \<Longrightarrow> \<forall>c\<in>set w. \<not> isspace c \<Longrightarrow> py_split w = [w]"
  by (simp add: py_split_def split_from_no_space)

lemma digits_no_space:
  "list_all (\<lambda>d. \<not> isspace (digit_char d)) [0, 1, 2, 3, 4, 5, 6, 7, 8, 9]"
  by code_simp

lemma digit_char_no_space: "d < 10 \<Longrightarrow> \<not> isspace (digit_char d)"
proof -
  assume "d < 10"
  then have "d \<in> set [0, 1, 2, 3, 4, 5, 6, 7, 8, 9]" by auto
  with digits_no_space show ?thesis
    unfolding list_all_iff by blast
qed

lemma str_nat_no_space: "\<forall>c\<in>set (str_nat n). \<not> isspace c"
proof (induction n rule: str_nat.induct)
  case (1 n)
  show ?case
  proof (cases "n < 10")
    case True
    then show ?thesis
      by (subst str_nat.simps) (simp add: digit_char_no_space)
  next
    case False
    with 1 show ?thesis
      by (subst str_nat.simps) (simp add: digit_char_no_space)
  qed
qed

lemma str_nat_not_Nil: "str_nat n \<noteq> []"
  by (subst str_nat.simps) simp

lemma py_str_no_space: "\<forall>c\<in>set (py_str i). \<not> isspace c"
  using str_nat_no_space by (simp add: py_str_def isspace_def)

lemma py_str_not_Nil: "py_str i \<noteq> []"
  by (simp add: py_str_def str_nat_not_Nil)

section \<open>Properties of the repair\<close>

text \<open>The outcome of the loop body on a line that is no comment and not blank.\<close>

lemma fix_config_keep_tokens:
  assumes "\<not> startswith line ''#''" "line \<noteq> [newline]"
  shows "fix_config_keep line =
     (case py_split line of
        [] \<Rightarrow> Inl IndexError
      | s0 # _ \<Rightarrow>
          if s0 = ''gesture'' then
            (if length (py_split line) < 5 then Inl IndexError
             else if py_split line ! 4 = ''xdotool'' then
               (if length (py_split line) < 6 then Inl IndexError
                else Inr (py_split line ! 5 = ''key'' \<and> length (py_split line) = 7))
             else if contains ''qdbus'' (py_split line ! 4) then
               Inr (endswith (last (py_split line)) [dquote])
             else Inr True)
          else if s0 = ''device'' \<or> s0 = ''swipe_threshold'' then Inr (length (py_split line) = 2)
          else Inr False)"
  using assms
  by (cases "py_split line")
    (auto simp: fix_config_keep_def py_split_replace_tab subscript_0 subscript_4 subscript_5
      subscript_last Let_def)

lemma fix_config_loop_filter:
  "fix_config_loop conf acc = Inr out \<Longrightarrow>
     out = acc @ filter (\<lambda>l. fix_config_keep l = Inr True) conf"
proof (induction conf arbitrary: acc)
  case Nil
  then show ?case by simp
next
  case (Cons line conf)
  show ?case
  proof (cases "fix_config_keep line")
    case (Inl e)
    with Cons.prems show ?thesis by simp
  next
    case (Inr keep)
    show ?thesis
    proof (cases keep)
      case True
      with Inr Cons.prems have "fix_config_loop conf (acc @ [line]) = Inr out" by simp
      from Cons.IH [OF this] Inr True show ?thesis by simp
    next
      case False
      with Inr Cons.prems have "fix_config_loop conf acc = Inr out" by simp
      from Cons.IH [OF this] Inr False show ?thesis by simp
    qed
  qed
qed

lemma fix_config_loop_total:
  "(\<And>l. l \<in> set conf \<Longrightarrow> \<exists>k. fix_config_keep l = Inr k) \<Longrightarrow>
     \<exists>out. fix_config_loop conf acc = Inr out"
proof (induction conf arbitrary: acc)
  case Nil
  then show ?case by simp
next
  case (Cons line conf)
  from Cons.prems obtain k where k: "fix_config_keep line = Inr k" by auto
  have "\<exists>out. fix_config_loop conf (if k then acc @ [line] else acc) = Inr out"
    by (rule Cons.IH) (simp add: Cons.prems)
  with k show ?case by simp
qed

lemma fix_config_written:
  assumes "fix_config fs = Inr fs'"
  shows "read_config fs' = filter (\<lambda>l. fix_config_keep l = Inr True) (read_config fs)"
proof -
  from assms obtain fixed_conf
    where loop: "fix_config_loop (read_config fs) [] = Inr fixed_conf"
      and fs': "fs' = write_config (chars (concat fixed_conf))"
    by (auto simp: fix_config_def split: sum.splits)
  from fix_config_loop_filter [OF loop]
  have fixed: "fixed_conf = filter (\<lambda>l. fix_config_keep l = Inr True) (read_config fs)"
    by simp
  have "wf_lines fixed_conf"
    unfolding fixed by (rule wf_lines_filter [OF wf_lines_read_config])
  then show ?thesis
    using fs' fixed by (simp add: read_write_chars)
qed

lemma fix_config_sample:
  "fix_config (Some ''# c\<newline>foo bar\<newline>\<newline>device a b\<newline>gesture pinch in 2 xdotool key ctrl+alt+t\<newline>'')
     = Inr (Some ''# c\<newline>\<newline>gesture pinch in 2 xdotool key ctrl+alt+t\<newline>'')"
  by code_simp

lemma readlines_sample_in:
  "read_config (Some ''# c\<newline>foo bar\<newline>\<newline>device a b\<newline>gesture pinch in 2 xdotool key ctrl+alt+t\<newline>'')
     = [''# c\<newline>'', ''foo bar\<newline>'', ''\<newline>'', ''device a b\<newline>'',
        ''gesture pinch in 2 xdotool key ctrl+alt+t\<newline>'']"
  by code_simp

lemma readlines_sample_out:
  "read_config (Some ''# c\<newline>\<newline>gesture pinch in 2 xdotool key ctrl+alt+t\<newline>'')
     = [''# c\<newline>'', ''\<newline>'', ''gesture pinch in 2 xdotool key ctrl+alt+t\<newline>'']"
  by code_simp

lemma xdotool_line_tokens:
  "py_split ''gesture pinch in 2 xdotool key ctrl+alt+t\<newline>'' =
     [''gesture'', ''pinch'', ''in'', ''2'', ''xdotool'', ''key'', ''ctrl+alt+t'']"
  by code_simp

lemma xdotool_line_kept:
  "fix_config_keep ''gesture pinch in 2 xdotool key ctrl+alt+t\<newline>'' = Inr True"
  by code_simp

lemma qdbus_line_tokens:
  "py_split ''gesture swipe down 3 qdbus org.kde.kglobalaccel /component/kwin invokeShortcut Expose\<newline>'' =
     [''gesture'', ''swipe'', ''down'', ''3'', ''qdbus'', ''org.kde.kglobalaccel'',
      ''/component/kwin'', ''invokeShortcut'', ''Expose'']"
  by code_simp

lemma qdbus_line_dropped:
  "fix_config_keep ''gesture swipe down 3 qdbus org.kde.kglobalaccel /component/kwin invokeShortcut Expose\<newline>'' = Inr False"
  by code_simp

lemma device_line_tokens: "py_split ''device a b\<newline>'' = [''device'', ''a'', ''b'']"
  by code_simp

lemma nbsp_device_tokens: "py_split (''device'' @ [CHR 0xA0] @ ''a\<newline>'') = [''device'', ''a'']"
  by code_simp

lemma nbsp_xdotool_dropped:
  "fix_config_keep (''gesture swipe up 3 xdotool key ctrl+a'' @ [CHR 0xA0] @ ''b\<newline>'') = Inr False"
  by code_simp

text \<open>
  C1. A line whose first token is \<open>gesture\<close> is kept by the repair exactly when it has a
  fifth token and: that token is \<open>xdotool\<close>, the sixth is \<open>key\<close> and there are seven tokens;
  or that token contains \<open>qdbus\<close> and the last token ends with a double quote; or that
  token is anything else. A line whose first token is \<open>device\<close> or \<open>swipe_threshold\<close> is
  kept exactly when it has two tokens. This holds of the decision the loop takes for the
  line, and of the line being in the file the repair has written.
\<close>

theorem fix_config_keeps_iff:
  "(\<forall>rest. py_split line = ''gesture'' # rest \<longrightarrow>
      (fix_config_keep line = Inr True \<longleftrightarrow> spec_gesture_kept (py_split line))
      \<and> (\<forall>fs'. fix_config fs = Inr fs' \<and> line \<in> set (read_config fs) \<longrightarrow>
            (line \<in> set (read_config fs') \<longleftrightarrow> spec_gesture_kept (py_split line))))
   \<and> (\<forall>kw rest. py_split line = kw # rest \<and> (kw = ''device'' \<or> kw = ''swipe_threshold'') \<longrightarrow>
      fix_config_keep line = Inr (spec_directive_kept (py_split line))
      \<and> (\<forall>fs'. fix_config fs = Inr fs' \<and> line \<in> set (read_config fs) \<longrightarrow>
            (line \<in> set (read_config fs') \<longleftrightarrow> spec_directive_kept (py_split line))))"
proof -
  have written: "line \<in> set (read_config fs') \<longleftrightarrow> fix_config_keep line = Inr True"
    if "fix_config fs = Inr fs' \<and> line \<in> set (read_config fs)" for fs'
    using that fix_config_written [of fs fs'] by simp
  have gesture: "fix_config_keep line = Inr True \<longleftrightarrow> spec_gesture_kept (py_split line)"
    if toks: "py_split line = ''gesture'' # rest" for rest
  proof -
    from toks have "\<not> startswith line ''#''" "line \<noteq> [newline]"
      using py_split_hash [of line "''gesture''" rest] by (auto simp: py_split_newline)
    from fix_config_keep_tokens [OF this] toks show ?thesis
      by (auto simp: spec_gesture_kept_def)
  qed
  have directive: "fix_config_keep line = Inr (spec_directive_kept (py_split line))"
    if toks: "py_split line = kw # rest" and kw: "kw = ''device'' \<or> kw = ''swipe_threshold''"
    for kw rest
  proof -
    from toks kw have "\<not> startswith line ''#''" "line \<noteq> [newline]"
      using py_split_hash [of line kw rest] by (auto simp: py_split_newline)
    from fix_config_keep_tokens [OF this] toks kw show ?thesis
      by (auto simp: spec_directive_kept_def)
  qed
  show ?thesis
  proof (intro conjI allI impI)
    fix rest
    assume "py_split line = ''gesture'' # rest"
    then show "fix_config_keep line = Inr True \<longleftrightarrow> spec_gesture_kept (py_split line)"
      by (rule gesture)
  next
    fix rest fs'
    assume "py_split line = ''gesture'' # rest"
      and "fix_config fs = Inr fs' \<and> line \<in> set (read_config fs)"
    then show "line \<in> set (read_config fs') \<longleftrightarrow> spec_gesture_kept (py_split line)"
      using gesture [of rest] written [of fs'] by simp
  next
    fix kw rest
    assume "py_split line = kw # rest \<and> (kw = ''device'' \<or> kw = ''swipe_threshold'')"
    then show "fix_config_keep line = Inr (spec_directive_kept (py_split line))"
      using directive [of kw rest] by blast
  next
    fix kw rest fs'
    assume "py_split line = kw # rest \<and> (kw = ''device'' \<or> kw = ''swipe_threshold'')"
      and "fix_config fs = Inr fs' \<and> line \<in> set (read_config fs)"
    then show "line \<in> set (read_config fs') \<longleftrightarrow> spec_directive_kept (py_split line)"
      using directive [of kw rest] written [of fs'] by auto
  qed
qed

theorem fix_config_keeps_iff_witness:
  "py_split ''gesture pinch in 2 xdotool key ctrl+alt+t\<newline>'' =
     [''gesture'', ''pinch'', ''in'', ''2'', ''xdotool'', ''key'', ''ctrl+alt+t'']
   \<and> spec_gesture_kept [''gesture'', ''pinch'', ''in'', ''2'', ''xdotool'', ''key'', ''ctrl+alt+t'']
   \<and> fix_config (Some ''# c\<newline>foo bar\<newline>\<newline>device a b\<newline>gesture pinch in 2 xdotool key ctrl+alt+t\<newline>'')
       = Inr (Some ''# c\<newline>\<newline>gesture pinch in 2 xdotool key ctrl+alt+t\<newline>'')
   \<and> ''gesture pinch in 2 xdotool key ctrl+alt+t\<newline>'' \<in>
       set (read_config (Some ''# c\<newline>\<newline>gesture pinch in 2 xdotool key ctrl+alt+t\<newline>''))
   \<and> py_split ''gesture swipe down 3 qdbus org.kde.kglobalaccel /component/kwin invokeShortcut Expose\<newline>'' =
     [''gesture'', ''swipe'', ''down'', ''3'', ''qdbus'', ''org.kde.kglobalaccel'',
      ''/component/kwin'', ''invokeShortcut'', ''Expose'']
   \<and> \<not> spec_gesture_kept [''gesture'', ''swipe'', ''down'', ''3'', ''qdbus'', ''org.kde.kglobalaccel'',
      ''/component/kwin'', ''invokeShortcut'', ''Expose'']
   \<and> py_split ''device a b\<newline>'' = [''device'', ''a'', ''b'']
   \<and> fix_config_keep ''device a b\<newline>'' = Inr False
   \<and> ''device a b\<newline>'' \<notin>
       set (read_config (Some ''# c\<newline>\<newline>gesture pinch in 2 xdotool key ctrl+alt+t\<newline>''))
   \<and> py_split (''device'' @ [CHR 0xA0] @ ''a\<newline>'') = [''device'', ''a'']
   \<and> fix_config_keep (''device'' @ [CHR 0xA0] @ ''a\<newline>'') = Inr True"
proof -
  let ?fs = "Some ''# c\<newline>foo bar\<newline>\<newline>device a b\<newline>gesture pinch in 2 xdotool key ctrl+alt+t\<newline>''"
  note t1 = fix_config_keeps_iff [of "''gesture pinch in 2 xdotool key ctrl+alt+t\<newline>''" ?fs]
  note t2 = fix_config_keeps_iff [of
      "''gesture swipe down 3 qdbus org.kde.kglobalaccel /component/kwin invokeShortcut Expose\<newline>''" ?fs]
  note t3 = fix_config_keeps_iff [of "''device a b\<newline>''" ?fs]
  have in1: "''gesture pinch in 2 xdotool key ctrl+alt+t\<newline>'' \<in> set (read_config ?fs)"
    and in3: "''device a b\<newline>'' \<in> set (read_config ?fs)"
    by (simp_all add: readlines_sample_in)
  from t1 xdotool_line_tokens xdotool_line_kept
  have a: "spec_gesture_kept [''gesture'', ''pinch'', ''in'', ''2'', ''xdotool'', ''key'', ''ctrl+alt+t'']"
    by simp
  from t1 xdotool_line_tokens fix_config_sample in1 a
  have a': "''gesture pinch in 2 xdotool key ctrl+alt+t\<newline>'' \<in>
       set (read_config (Some ''# c\<newline>\<newline>gesture pinch in 2 xdotool key ctrl+alt+t\<newline>''))"
    by simp
  from t2 qdbus_line_tokens qdbus_line_dropped
  have b: "\<not> spec_gesture_kept [''gesture'', ''swipe'', ''down'', ''3'', ''qdbus'',
      ''org.kde.kglobalaccel'', ''/component/kwin'', ''invokeShortcut'', ''Expose'']"
    by simp
  from t3 device_line_tokens
  have c: "fix_config_keep ''device a b\<newline>'' = Inr False"
    by (simp add: spec_directive_kept_def)
  from t3 device_line_tokens fix_config_sample in3
  have c': "''device a b\<newline>'' \<notin>
       set (read_config (Some ''# c\<newline>\<newline>gesture pinch in 2 xdotool key ctrl+alt+t\<newline>''))"
    by (simp add: spec_directive_kept_def)
  from fix_config_keeps_iff [of "''device'' @ [CHR 0xA0] @ ''a\<newline>''" ?fs] nbsp_device_tokens
  have d: "fix_config_keep (''device'' @ [CHR 0xA0] @ ''a\<newline>'') = Inr True"
    by (simp add: spec_directive_kept_def)
  show ?thesis
    by (intro conjI xdotool_line_tokens a fix_config_sample a' qdbus_line_tokens b
        device_line_tokens c c' nbsp_device_tokens d)
qed

text \<open>
  C5. The repair is not total: a subscript of the token list raises \<^verbatim>\<open>IndexError\<close> on a
  \<open>gesture\<close> line of fewer than five tokens, on a line of white space only, and on a line
  that ends after \<open>xdotool\<close>; nothing is written then.
\<close>

theorem fix_config_raises:
  "fix_config (Some ''gesture swipe up 3\<newline>'') = Inl IndexError
   \<and> fix_config (Some ''   \<newline>'') = Inl IndexError
   \<and> fix_config (Some ''gesture swipe up 3 xdotool\<newline>'') = Inl IndexError"
  by code_simp

text \<open>
  C6. The lines of the file the repair has written are a subsequence of the lines it read.
\<close>

theorem fix_config_subseq:
  "fix_config fs = Inr fs' \<Longrightarrow> subseq (read_config fs') (read_config fs)"
  by (simp add: fix_config_written)

theorem fix_config_subseq_witness:
  "fix_config (Some ''# c\<newline>foo bar\<newline>\<newline>device a b\<newline>gesture pinch in 2 xdotool key ctrl+alt+t\<newline>'')
     = Inr (Some ''# c\<newline>\<newline>gesture pinch in 2 xdotool key ctrl+alt+t\<newline>'')
   \<and> subseq [''# c\<newline>'', ''\<newline>'', ''gesture pinch in 2 xdotool key ctrl+alt+t\<newline>'']
        [''# c\<newline>'', ''foo bar\<newline>'', ''\<newline>'', ''device a b\<newline>'',
         ''gesture pinch in 2 xdotool key ctrl+alt+t\<newline>'']"
  using fix_config_subseq [OF fix_config_sample]
  by (simp only: fix_config_sample readlines_sample_in readlines_sample_out simp_thms)

section \<open>Properties of the normalisation\<close>

lemma resub_runs_no_char: "c \<noteq> CHR '' '' \<Longrightarrow> c \<notin> set (resub_runs c s)"
  by (induction c s rule: resub_runs.induct) auto

lemma resub_runs_absent: "c \<notin> set s \<Longrightarrow> resub_runs c s = s"
  by (induction s) auto

lemma resub_runs_set: "set (resub_runs c s) \<subseteq> insert (CHR '' '') (set s)"
proof (induction c s rule: resub_runs.induct)
  case (1 c)
  show ?case by simp
next
  case (2 c x xs)
  have "set (dropWhile (\<lambda>y. y = c) xs) \<subseteq> set xs"
    by (auto dest: set_dropWhileD)
  with 2 show ?case by auto
qed

lemma dropWhile_resub_runs_start:
  "t = [] \<or> hd t \<noteq> c \<Longrightarrow> dropWhile (\<lambda>y. y = c) (resub_runs c t) = resub_runs c t"
  by (cases t) auto

lemma dropWhile_resub_runs:
  "dropWhile (\<lambda>y. y = c) (resub_runs c (dropWhile (\<lambda>y. y = c) s)) =
     resub_runs c (dropWhile (\<lambda>y. y = c) s)"
proof (rule dropWhile_resub_runs_start)
  show "dropWhile (\<lambda>y. y = c) s = [] \<or> hd (dropWhile (\<lambda>y. y = c) s) \<noteq> c"
    using hd_dropWhile [of "\<lambda>y. y = c" s] by blast
qed

lemma resub_runs_idem: "resub_runs c (resub_runs c s) = resub_runs c s"
proof (induction c s rule: resub_runs.induct)
  case (1 c)
  show ?case by simp
next
  case (2 c x xs)
  show ?case
  proof (cases "x = c")
    case False
    with 2 show ?thesis by simp
  next
    case True
    show ?thesis
    proof (cases "c = CHR '' ''")
      case sp: True
      with True 2 show ?thesis by (simp add: dropWhile_resub_runs)
    next
      case nsp: False
      have "c \<notin> set (resub_runs c (x # xs))" by (rule resub_runs_no_char [OF nsp])
      then show ?thesis by (rule resub_runs_absent)
    qed
  qed
qed

lemma replace_char_absent: "a \<notin> set s \<Longrightarrow> replace_char a b s = s"
  by (induction s) (auto simp: replace_char_def)

lemma replace_char_no_char: "a \<noteq> b \<Longrightarrow> a \<notin> set (replace_char a b s)"
  by (auto simp: replace_char_def)

lemma tab_not_space: "tab \<noteq> CHR '' ''"
  by (simp add: tab_def)

lemma normalise_no_tab: "tab \<notin> set (normalise s)"
proof -
  have "tab \<notin> set (replace_char tab (CHR '' '') (resub_runs tab s))"
    by (rule replace_char_no_char [OF tab_not_space])
  with resub_runs_set [of "CHR '' ''" "replace_char tab (CHR '' '') (resub_runs tab s)"]
  show ?thesis using tab_not_space by (auto simp: normalise_def)
qed

lemma normalise_idem: "normalise (normalise s) = normalise s"
proof -
  have "resub_runs tab (normalise s) = normalise s"
    by (rule resub_runs_absent [OF normalise_no_tab])
  moreover have "replace_char tab (CHR '' '') (normalise s) = normalise s"
    by (rule replace_char_absent [OF normalise_no_tab])
  ultimately have "normalise (normalise s) = resub_runs (CHR '' '') (normalise s)"
    by (simp add: normalise_def [of "normalise s"])
  then show ?thesis by (simp add: normalise_def [of s] resub_runs_idem)
qed

lemma concat_read_config: "concat (read_config fs) = (case fs of None \<Rightarrow> [] | Some text \<Rightarrow> text)"
  by (cases fs) (simp_all add: read_config_def concat_readlines)

lemma resub_config_normalise:
  "resub_config fs = Some (normalise (case fs of None \<Rightarrow> [] | Some text \<Rightarrow> text))"
  by (simp add: resub_config_def Let_def write_config_def concat_chars concat_read_config
      normalise_def)

text \<open>
  C7. Normalising the white space of the file twice gives the file that normalising it once
  gives.
\<close>

theorem resub_config_idempotent: "resub_config (resub_config fs) = resub_config fs"
  by (simp add: resub_config_normalise normalise_idem)

section \<open>Properties of the gesture tables and of the display\<close>

text \<open>
  C8. The two tables are not inverse to each other at the label \<open>Swipe LeftDown\<close>: its
  phrase in \<^verbatim>\<open>actions_mapping\<close> has two spaces before \<open>left_down\<close> and is no key of
  \<^verbatim>\<open>reversed_mapping\<close>, whose key \<open>gesture swipe left_down\<close> has one.
\<close>

theorem mappings_not_inverse:
  "actions_mapping ''Swipe LeftDown'' = Some ''gesture swipe  left_down''
   \<and> dict_get reversed_mapping ''gesture swipe  left_down'' = Inl KeyError
   \<and> reversed_mapping ''gesture swipe left_down'' = Some ''Swipe LeftDown''
   \<and> actions_mapping ''Swipe LeftDown'' \<noteq> Some ''gesture swipe left_down''"
  by (simp add: actions_mapping_def reversed_mapping_def dict_get_def)

text \<open>
  C4. On a \<open>qdbus\<close> line with no double-quoted piece the list of matches is empty and its
  subscript raises \<^verbatim>\<open>IndexError\<close>: the last token is not used. With a quoted piece the
  payload is that piece, and the last token without its quotes when the piece is empty.
\<close>

theorem prepare_line_no_quotes_raises:
  "prepare_line ''gesture swipe down 3 qdbus org.kde.kglobalaccel /component/kwin invokeShortcut Expose\<newline>''
     = Inl IndexError
   \<and> findall_quoted ''gesture swipe down 3 qdbus org.kde.kglobalaccel /component/kwin invokeShortcut Expose\<newline>'' = []
   \<and> prepare_line ''gesture swipe down 3 qdbus org.kde.kglobalaccel /component/kwin invokeShortcut \"Expose\"\<newline>''
     = Inr (''Swipe Down'', ''3'', ''Plasma action'', ''Expose'', ''gesture swipe down 3'')
   \<and> prepare_line ''gesture swipe down 3 qdbus \"\" Expose\<newline>''
     = Inr (''Swipe Down'', ''3'', ''Plasma action'', ''Expose'', ''gesture swipe down 3'')"
  by code_simp

text \<open>
  C9. The finger counts are compared as text: with one label, the binding of 10 fingers is
  placed before the binding of 2 fingers.
\<close>

theorem sort_config_fingers_as_text:
  "prepare_config_for_displaying
     (Some ''gesture swipe up 2 xdotool key a\<newline>gesture swipe up 10 xdotool key b\<newline>'') =
     Inr \<lparr>gestures = [''Swipe Up'', ''Swipe Up''], fingers = [''2'', ''10''],
          shortcuts = [''a'', ''b''],
          buttons = [''gesture swipe up 2'', ''gesture swipe up 10''],
          actions = [''Keyboard shortcut'', ''Keyboard shortcut'']\<rparr>
   \<and> sort_config
     \<lparr>gestures = [''Swipe Up'', ''Swipe Up''], fingers = [''2'', ''10''],
      shortcuts = [''a'', ''b''],
      buttons = [''gesture swipe up 2'', ''gesture swipe up 10''],
      actions = [''Keyboard shortcut'', ''Keyboard shortcut'']\<rparr> =
     Inr \<lparr>gestures = [''Swipe Up'', ''Swipe Up''], fingers = [''10'', ''2''],
          shortcuts = [''b'', ''a''],
          buttons = [''gesture swipe up 10'', ''gesture swipe up 2''],
          actions = [''Keyboard shortcut'', ''Keyboard shortcut'']\<rparr>"
  by code_simp

section \<open>Properties of saving and deleting\<close>

lemma delete_entry_loop_filter:
  "delete_entry_loop name conf acc = acc @ filter (\<lambda>l. \<not> startswith l name) conf"
  by (induction conf arbitrary: acc) simp_all

lemma save_changes_loop_filter:
  "save_changes_loop key conf acc = acc @ filter (\<lambda>l. \<not> startswith l key) conf"
  by (induction conf arbitrary: acc) simp_all

lemma startswith_append: "startswith (key @ rest) key"
  by (simp add: startswith_def)

lemma save_changes_conf_filter:
  "save_changes_conf action n shortcut conf =
     filter (\<lambda>l. \<not> startswith l (action @ '' '' @ py_str n)) conf
       @ [action @ '' '' @ py_str n @ '' '' @ shortcut @ [newline]]"
  by (simp add: save_changes_conf_def save_changes_loop_filter)

lemma save_changes_conf_key:
  "filter (\<lambda>l. startswith l (action @ '' '' @ py_str n)) (save_changes_conf action n shortcut conf) =
     [action @ '' '' @ py_str n @ '' '' @ shortcut @ [newline]]"
proof -
  have "startswith (action @ '' '' @ py_str n @ '' '' @ shortcut @ [newline]) (action @ '' '' @ py_str n)"
    using startswith_append [of "action @ '' '' @ py_str n" "'' '' @ shortcut @ [newline]"] by simp
  then show ?thesis
    by (simp add: save_changes_conf_filter)
qed

lemma py_str_three: "py_str 3 = ''3''"
  by code_simp

subsection \<open>Reading the written file again\<close>

lemma delete_entry_reread:
  "read_config (delete_entry name fs) = filter (\<lambda>l. \<not> startswith l name) (read_config fs)"
  by (simp add: delete_entry_def delete_entry_loop_filter read_write_config wf_lines_filter
      wf_lines_read_config)

lemma wf_lines_not_Nil: "wf_lines ls \<Longrightarrow> l \<in> set ls \<Longrightarrow> l \<noteq> []"
  by (induction ls rule: wf_lines.induct) auto

lemma wf_lines_all_terminated:
  "wf_lines ls \<Longrightarrow> ls \<noteq> [] \<Longrightarrow> last (last ls) = newline \<Longrightarrow> l \<in> set ls \<Longrightarrow> last l = newline"
  by (induction ls rule: wf_lines.induct) auto

lemma wf_lines_snoc:
  "wf_lines ls \<Longrightarrow> (\<And>l. l \<in> set ls \<Longrightarrow> last l = newline) \<Longrightarrow> wf_lines [new] \<Longrightarrow>
     wf_lines (ls @ [new])"
  by (induction ls rule: wf_lines.induct) auto

lemma last_concat_lines: "ls \<noteq> [] \<Longrightarrow> last ls \<noteq> [] \<Longrightarrow> last (concat ls) = last (last ls)"
  by (induction ls) (auto simp: last_append)

lemma readlines_terminated_text:
  assumes "l \<in> set (readlines (t @ [newline]))"
  shows "last l = newline"
proof -
  let ?ls = "readlines (t @ [newline])"
  have wf: "wf_lines ?ls" by (rule wf_lines_readlines)
  have ne: "?ls \<noteq> []" by (simp add: readlines_eq_Nil)
  then have "last ?ls \<in> set ?ls" by simp
  with wf have "last ?ls \<noteq> []" by (rule wf_lines_not_Nil)
  with ne have "last (concat ?ls) = last (last ?ls)" by (rule last_concat_lines)
  then have "last (last ?ls) = newline" by (simp add: concat_readlines)
  with wf ne show ?thesis using assms by (rule wf_lines_all_terminated)
qed

lemma py_str_no_newline: "newline \<notin> set (py_str n)"
  using py_str_no_space [of n] isspace_newline by blast

text \<open>
  When the text of the file is empty or ends with a newline, reading the file that
  \<open>save_changes\<close> wrote gives back the list that was handed to \<open>write_config\<close>.
\<close>

lemma save_changes_reread:
  assumes "action \<noteq> []" "n \<noteq> 0" "shortcut \<noteq> []"
    and "newline \<notin> set action" "newline \<notin> set shortcut"
    and "fs = None \<or> fs = Some [] \<or> (\<exists>t. fs = Some (t @ [newline]))"
  shows "read_config (save_changes action n shortcut fs) =
     save_changes_conf action n shortcut (read_config fs)"
proof -
  let ?key = "action @ '' '' @ py_str n"
  let ?new = "action @ '' '' @ py_str n @ '' '' @ shortcut @ [newline]"
  let ?kept = "filter (\<lambda>l. \<not> startswith l ?key) (read_config fs)"
  have terminated: "last l = newline" if "l \<in> set (read_config fs)" for l
    using assms(6) that by (auto simp: read_config_def dest: readlines_terminated_text)
  have "butlast ?new = action @ '' '' @ py_str n @ '' '' @ shortcut"
    by (simp add: butlast_append)
  then have new: "wf_lines [?new]"
    using assms(4,5) py_str_no_newline [of n] by (simp add: newline_def)
  have "wf_lines ?kept"
    by (rule wf_lines_filter [OF wf_lines_read_config])
  then have "wf_lines (?kept @ [?new])"
    by (rule wf_lines_snoc) (use terminated new in auto)
  then show ?thesis
    using assms(1-3) by (simp add: save_changes_def save_changes_conf_filter read_write_config)
qed

lemma newline_terminated_cases:
  "newline_terminated fs \<Longrightarrow> fs = None \<or> fs = Some [] \<or> (\<exists>t. fs = Some (t @ [newline]))"
proof (cases fs)
  case None
  then show ?thesis by simp
next
  case (Some contents)
  assume "newline_terminated fs"
  with Some have "contents = [] \<or> last contents = newline"
    by (simp add: newline_terminated_def)
  then show ?thesis
  proof
    assume "contents = []"
    with Some show ?thesis by simp
  next
    assume last: "last contents = newline"
    show ?thesis
    proof (cases "contents = []")
      case True
      with Some show ?thesis by simp
    next
      case False
      then have "contents = butlast contents @ [last contents]" by simp
      with last have "contents = butlast contents @ [newline]" by simp
      with Some show ?thesis by blast
    qed
  qed
qed

lemma newline_terminated_write:
  "newline_terminated (write_config (ls @ [l @ [newline]]))"
  by (simp add: newline_terminated_def write_config_def)

lemma save_changes_written:
  assumes "action \<noteq> []" "n \<noteq> 0" "shortcut \<noteq> []"
    and "one_line action" "one_line shortcut" "newline_terminated fs"
  shows "read_config (save_changes action n shortcut fs) =
     filter (\<lambda>l. \<not> startswith l (action @ '' '' @ py_str n)) (read_config fs)
       @ [action @ '' '' @ py_str n @ '' '' @ shortcut @ [newline]]"
  using save_changes_reread [of action n shortcut fs] assms newline_terminated_cases [of fs]
  by (simp add: one_line_def save_changes_conf_filter)

lemma save_changes_terminated:
  assumes "action \<noteq> []" "n \<noteq> 0" "shortcut \<noteq> []"
  shows "newline_terminated (save_changes action n shortcut fs)"
proof -
  have "save_changes action n shortcut fs =
      write_config (filter (\<lambda>l. \<not> startswith l (action @ '' '' @ py_str n)) (read_config fs)
        @ [(action @ '' '' @ py_str n @ '' '' @ shortcut) @ [newline]])"
    using assms by (simp add: save_changes_def save_changes_conf_filter)
  then show ?thesis
    by (simp only: newline_terminated_write)
qed

lemma filter_not_key_twice:
  "filter (\<lambda>l. \<not> startswith l key) (filter (\<lambda>l. \<not> startswith l key) conf @ [key @ rest]) =
     filter (\<lambda>l. \<not> startswith l key) conf"
  by (simp add: startswith_append)

lemma filter_key_kept:
  "filter (\<lambda>l. startswith l key) (filter (\<lambda>l. \<not> startswith l key) conf @ [key @ rest]) =
     [key @ rest]"
  by (simp add: startswith_append)

subsection \<open>The line of a key\<close>

lemma save_changes_sample_read:
  "read_config (Some ''# c\<newline>gesture swipe up 3 xdotool key a\<newline>gesture swipe up 4 xdotool key b\<newline>'') =
     [''# c\<newline>'', ''gesture swipe up 3 xdotool key a\<newline>'', ''gesture swipe up 4 xdotool key b\<newline>'']"
  by code_simp




text \<open>A payload of two lines can leave two lines that start with the key.\<close>

lemma save_changes_payload_newline:
  "filter (\<lambda>l. startswith l (''gesture swipe up'' @ '' '' @ py_str 3))
     (read_config (save_changes ''gesture swipe up'' 3 ''a\<newline>gesture swipe up 3 b'' None)) =
     [''gesture swipe up 3 a\<newline>'', ''gesture swipe up 3 b\<newline>'']"
  by code_simp

lemma decimal_digits_no_space: "list_all (\<lambda>c. \<not> isspace c) ''0123456789''"
  by code_simp

lemma not_startswith_filter: "startswith l key \<Longrightarrow> l \<notin> set (filter (\<lambda>l. \<not> startswith l key) conf)"
  by simp



end
